theory Spec2Isabelle
  imports Main "HOL-Library.AList" "HOL-Library.Sublist"
begin

section \<open>Values, documents and errors\<close>

text \<open>
  A stored document is a Python \<open>dict\<close> from field names to BSON values. The handlers of
  \<open>main.py\<close> never look inside a number, a date, an array or an embedded document: they
  pass such a value through, and the only function ever applied to a value is \<open>str\<close>.
  So a number is kept as the text \<open>str\<close> gives for it (\<open>2.99\<close>, \<open>120\<close>), and so is any
  other compound value. An \<open>ObjectId\<close> is kept as the lower-case hexadecimal text of its
  bytes, which is what \<open>str\<close> returns for it.
\<close>

datatype val =
    VNull
  | VBool bool
  | VNum string
  | VStr string
  | VOid string
  | VOther string

type_synonym doc = "(string \<times> val) list"

fun str :: "val \<Rightarrow> string" where
  "str VNull = ''None''"
| "str (VBool b) = (if b then ''True'' else ''False'')"
| "str (VNum s) = s"
| "str (VStr s) = s"
| "str (VOid h) = h"
| "str (VOther s) = s"

text \<open>
  Every \<open>raise\<close> of the handlers and of the driver calls they make is a value.
  \<open>HTTPException\<close> carries the status code and the detail; the others are the exceptions
  of Python and of the driver that no handler catches. \<open>NotImplementedError\<close> is what the
  truth test of a driver database raises, \<open>OperationFailure\<close> what the driver raises
  when the store rejects a \<open>$regex\<close> pattern, and \<open>ConfigurationError\<close> stands for the
  failure of a write on a store that is not initialized.
\<close>

datatype error =
    HTTPException nat string
  | KeyError string
  | InvalidId string
  | ValueError string
  | NotImplementedError
  | OperationFailure string
  | ConfigurationError

text \<open>
  The framework turns an \<open>HTTPException\<close> into a response with its status code, and any
  other exception that leaves a handler into a response with status 500.
\<close>

fun status_code :: "error \<Rightarrow> nat" where
  "status_code (HTTPException c _) = c"
| "status_code _ = 500"

definition client_error :: "nat \<Rightarrow> bool" where
  "client_error c = (400 \<le> c \<and> c < 500)"

definition server_error :: "nat \<Rightarrow> bool" where
  "server_error c = (500 \<le> c \<and> c < 600)"

section \<open>The identifier normalizer\<close>

text \<open>
  \<^verbatim>\<open>
  def to_public(doc: dict):
      if not doc:
          return doc
      doc["id"] = str(doc.pop("_id"))
      return doc
  \<close>
  The argument is \<open>None\<close> or a \<open>dict\<close>; \<open>not doc\<close> holds of \<open>None\<close> and of the empty
  \<open>dict\<close>. \<open>doc.pop("_id")\<close> raises \<open>KeyError\<close> when the key is missing; the assignment
  to \<open>doc["id"]\<close> replaces the value of an existing key where it stands and appends a new
  key otherwise. The function mutates its argument and returns it; the model returns the
  new document.
\<close>

definition to_public :: "doc option \<Rightarrow> error + doc option" where
  "to_public doc =
     (case doc of
        None \<Rightarrow> Inr None
      | Some d \<Rightarrow>
          if d = [] then Inr (Some d)
          else (case map_of d ''_id'' of
                  None \<Rightarrow> Inl (KeyError ''_id'')
                | Some v \<Rightarrow>
                    Inr (Some (AList.update ''id'' (VStr (str v)) (AList.delete ''_id'' d)))))"

text \<open>The list comprehension \<open>[to_public(x) for x in cursor]\<close>: the first failure ends it.\<close>

fun to_public_all :: "doc list \<Rightarrow> error + doc option list" where
  "to_public_all [] = Inr []"
| "to_public_all (x # xs) =
     (case to_public (Some x) of
        Inl e \<Rightarrow> Inl e
      | Inr y \<Rightarrow>
          (case to_public_all xs of
             Inl e \<Rightarrow> Inl e
           | Inr ys \<Rightarrow> Inr (y # ys)))"

section \<open>Stored identifiers\<close>

text \<open>
  \<open>ObjectId(id)\<close> of the driver's \<open>bson\<close> package, for a \<open>str\<close> argument: the string must
  have 24 characters and \<open>bytes.fromhex\<close> must accept it, or \<open>InvalidId\<close> is raised.
  \<open>bytes.fromhex\<close> reads pairs of hexadecimal digits and skips ASCII white space
  between pairs. The identifier is kept as the lower-case hexadecimal text of its bytes.
\<close>

definition lower :: "char \<Rightarrow> char" where
  "lower c =
     (case map_of (zip ''ABCDEFGHIJKLMNOPQRSTUVWXYZ'' ''abcdefghijklmnopqrstuvwxyz'') c of
        Some l \<Rightarrow> l
      | None \<Rightarrow> c)"

definition hex_digit :: "char \<Rightarrow> bool" where
  "hex_digit c = (c \<in> set ''0123456789abcdefABCDEF'')"

definition ascii_space :: "char \<Rightarrow> bool" where
  "ascii_space c = (c \<in> set [CHR '' '', CHR 0x09, CHR 0x0A, CHR 0x0B, CHR 0x0C, CHR 0x0D])"

fun fromhex :: "string \<Rightarrow> string option" where
  "fromhex [] = Some []"
| "fromhex [c] = (if ascii_space c then Some [] else None)"
| "fromhex (c # d # cs) =
     (if ascii_space c then fromhex (d # cs)
      else if hex_digit c \<and> hex_digit d then
        (case fromhex cs of None \<Rightarrow> None | Some r \<Rightarrow> Some (lower c # lower d # r))
      else None)"

definition ObjectId :: "string \<Rightarrow> error + val" where
  "ObjectId oid =
     (if length oid = 24 then
        (case fromhex oid of
           Some h \<Rightarrow> Inr (VOid h)
         | None \<Rightarrow> Inl (InvalidId oid))
      else Inl (InvalidId oid))"

section \<open>Filter expressions\<close>

text \<open>
  A filter is the \<open>dict\<close> a handler passes to the driver: a field name with either a
  value, for equality, or \<open>{"$regex": p, "$options": o}\<close>. All its entries must hold
  of a document. The fields the handlers filter on (\<open>name\<close>, \<open>category\<close>, \<open>specialty\<close>,
  \<open>user_id\<close>, \<open>doctor_id\<close>) are strings in \<open>schemas.py\<close>, and a condition is compared
  with the whole value of the field.

  The pattern language of the store is given a meaning on a fragment only: a character
  that is not a metacharacter stands for itself, \<open>.\<close> stands for any character but a
  line feed, and a backslash before a character that is no ASCII letter or digit makes
  that character stand for itself. The option \<open>i\<close> compares letters of ASCII without
  regard to case, and a pattern is searched for at every position of the subject. A
  pattern with any other construct is outside this fragment (\<open>parse_regex\<close> returns
  \<open>None\<close>) and is left to the store's own engine, a parameter: for a pattern and its
  options the engine gives \<open>None\<close> when the store rejects the pattern, and the set of
  subjects that match otherwise.
\<close>

datatype atom = Lit char | AnyChar

definition regex_meta :: "char \<Rightarrow> bool" where
  "regex_meta c = (c \<in> set (CHR 0x5C # ''^$.|?*+()[]{}''))"

definition ascii_alnum :: "char \<Rightarrow> bool" where
  "ascii_alnum c =
     (c \<in> set ''0123456789abcdefghijklmnopqrstuvwxyzABCDEFGHIJKLMNOPQRSTUVWXYZ'')"

fun parse_regex :: "string \<Rightarrow> atom list option" where
  "parse_regex [] = Some []"
| "parse_regex [c] =
     (if c = CHR ''.'' then Some [AnyChar]
      else if regex_meta c then None
      else Some [Lit c])"
| "parse_regex (c # d # cs) =
     (if c = CHR 0x5C then
        (if ascii_alnum d then None
         else (case parse_regex cs of None \<Rightarrow> None | Some r \<Rightarrow> Some (Lit d # r)))
      else if c = CHR ''.'' then
        (case parse_regex (d # cs) of None \<Rightarrow> None | Some r \<Rightarrow> Some (AnyChar # r))
      else if regex_meta c then None
      else (case parse_regex (d # cs) of None \<Rightarrow> None | Some r \<Rightarrow> Some (Lit c # r)))"

fun atom_matches :: "bool \<Rightarrow> atom \<Rightarrow> char \<Rightarrow> bool" where
  "atom_matches ci (Lit l) c = (if ci then lower l = lower c else l = c)"
| "atom_matches ci AnyChar c = (c \<noteq> CHR 0x0A)"

fun match_here :: "bool \<Rightarrow> atom list \<Rightarrow> string \<Rightarrow> bool" where
  "match_here ci [] s = True"
| "match_here ci (a # as) [] = False"
| "match_here ci (a # as) (c # cs) = (atom_matches ci a c \<and> match_here ci as cs)"

fun regex_search :: "bool \<Rightarrow> atom list \<Rightarrow> string \<Rightarrow> bool" where
  "regex_search ci as [] = match_here ci as []"
| "regex_search ci as (c # cs) = (match_here ci as (c # cs) \<or> regex_search ci as cs)"

datatype cond = Eq val | Regex string string

type_synonym filt = "(string \<times> cond) list"

type_synonym engine = "string \<Rightarrow> string \<Rightarrow> (string \<Rightarrow> bool) option"

fun cond_valid :: "engine \<Rightarrow> cond \<Rightarrow> bool" where
  "cond_valid rx (Eq v) = True"
| "cond_valid rx (Regex p opts) = (parse_regex p \<noteq> None \<or> rx p opts \<noteq> None)"

fun cond_matches :: "engine \<Rightarrow> cond \<Rightarrow> val option \<Rightarrow> bool" where
  "cond_matches rx (Eq v) fv = (fv = Some v \<or> (v = VNull \<and> fv = None))"
| "cond_matches rx (Regex p opts) fv =
     (case fv of
        Some (VStr s) \<Rightarrow>
          (case parse_regex p of
             Some as \<Rightarrow> regex_search (CHR ''i'' \<in> set opts) as s
           | None \<Rightarrow> (case rx p opts of Some m \<Rightarrow> m s | None \<Rightarrow> False))
      | _ \<Rightarrow> False)"

definition filt_valid :: "engine \<Rightarrow> filt \<Rightarrow> bool" where
  "filt_valid rx f = list_all (\<lambda>kc. cond_valid rx (snd kc)) f"

definition doc_matches :: "engine \<Rightarrow> filt \<Rightarrow> doc \<Rightarrow> bool" where
  "doc_matches rx f d = list_all (\<lambda>kc. cond_matches rx (snd kc) (map_of d (fst kc))) f"


section \<open>The document store\<close>

text \<open>
  The handle \<open>db\<close> of \<open>database.py\<close> is \<open>None\<close> when the store is not configured, and
  a driver database otherwise. \<open>db.medicine\<close> is the collection named \<open>medicine\<close>: a
  collection is the list of its documents in insertion order. \<open>calls\<close> counts the round
  trips to the store, and \<open>next_oid\<close> is the supply from which the driver gives a
  document without \<open>_id\<close> its identifier. \<open>regex_other\<close> is the store's engine for the
  patterns outside the fragment above.

  \<open>database.py\<close> and the version of the driver are not among the sources, and the two
  kinds of driver differ on \<open>if db\<close>: the database object of the driver raises
  \<open>NotImplementedError\<close> when its truth value is tested, from version 4 on, and has no
  truth test of its own, which makes it true, before. \<open>truth_raises\<close> says which of the
  two the handle is.
\<close>

record db =
  colls :: "string \<Rightarrow> doc list"
  calls :: nat
  next_oid :: nat
  truth_raises :: bool
  regex_other :: engine

text \<open>
  The tests \<open>if db\<close> and \<open>if not db\<close> of the handlers: \<open>None\<close> is false, and a driver
  database is true or raises. The result is the error raised, or the handle with
  \<open>None\<close> for false.
\<close>

definition truth_test :: "db option \<Rightarrow> error + db option" where
  "truth_test db =
     (case db of
        None \<Rightarrow> Inr None
      | Some d \<Rightarrow> if truth_raises d then Inl NotImplementedError else Inr (Some d))"

fun hex_of :: "nat \<Rightarrow> nat \<Rightarrow> string" where
  "hex_of 0 n = []"
| "hex_of (Suc k) n = hex_of k (n div 16) @ [''0123456789abcdef'' ! (n mod 16)]"

definition fresh_oid :: "nat \<Rightarrow> val" where
  "fresh_oid n = VOid (hex_of 24 n)"

text \<open>
  \<open>collection.count_documents(filt)\<close>: one round trip. The driver raises
  \<open>OperationFailure\<close> when the store rejects a pattern of the filter.
\<close>

definition count_documents :: "db \<Rightarrow> string \<Rightarrow> filt \<Rightarrow> (error + nat) \<times> db" where
  "count_documents d c f =
     (if filt_valid (regex_other d) f
      then Inr (length (filter (doc_matches (regex_other d) f) (colls d c)))
      else Inl (OperationFailure c),
      d\<lparr>calls := Suc (calls d)\<rparr>)"

text \<open>
  \<open>collection.find(filt).skip(skip).limit(limit)\<close>, iterated to its end. The cursor is
  lazy: \<open>skip\<close> raises \<open>ValueError\<close> for a negative argument before anything is sent.
  A limit of 0 is no limit, and the driver sends the absolute value of a negative limit.
\<close>

definition page_of :: "int \<Rightarrow> int \<Rightarrow> doc list \<Rightarrow> doc list" where
  "page_of skip limit ms =
     (if limit = 0 then drop (nat skip) ms else take (nat \<bar>limit\<bar>) (drop (nat skip) ms))"

definition find_skip_limit ::
  "db \<Rightarrow> string \<Rightarrow> filt \<Rightarrow> int \<Rightarrow> int \<Rightarrow> (error + doc list) \<times> db" where
  "find_skip_limit d c f skip limit =
     (if skip < 0 then (Inl (ValueError ''skip must be >= 0''), d)
      else
        (if filt_valid (regex_other d) f
         then Inr (page_of skip limit (filter (doc_matches (regex_other d) f) (colls d c)))
         else Inl (OperationFailure c),
         d\<lparr>calls := Suc (calls d)\<rparr>))"

text \<open>\<open>collection.find_one(filt)\<close>: the first match, or \<open>None\<close>; one round trip.\<close>

definition find_one :: "db \<Rightarrow> string \<Rightarrow> filt \<Rightarrow> (error + doc option) \<times> db" where
  "find_one d c f =
     (if filt_valid (regex_other d) f then
        Inr (case filter (doc_matches (regex_other d) f) (colls d c) of
               [] \<Rightarrow> None
             | x # xs \<Rightarrow> Some x)
      else Inl (OperationFailure c),
      d\<lparr>calls := Suc (calls d)\<rparr>)"

text \<open>
  \<open>collection.insert_many(docs)\<close> for documents without \<open>_id\<close>, which is what
  \<open>seed_basic\<close> passes: each document gets the next identifier of the supply and is
  stored, with \<open>_id\<close> first, after the documents already there; one round trip.
\<close>

fun with_ids :: "nat \<Rightarrow> doc list \<Rightarrow> doc list" where
  "with_ids n [] = []"
| "with_ids n (x # xs) = ((''_id'', fresh_oid n) # x) # with_ids (Suc n) xs"

definition insert_many :: "db \<Rightarrow> string \<Rightarrow> doc list \<Rightarrow> db" where
  "insert_many d c xs =
     d\<lparr>colls := (colls d)(c := colls d c @ with_ids (next_oid d) xs),
       calls := Suc (calls d),
       next_oid := next_oid d + length xs\<rparr>"

section \<open>Resource handlers\<close>

record page =
  total :: nat
  items :: "doc option list"

definition truthy :: "string option \<Rightarrow> bool" where
  "truthy s = (s \<noteq> None \<and> s \<noteq> Some [])"

text \<open>
  The filter of \<open>list_medicines\<close> (with \<open>category\<close>) and of \<open>list_doctors\<close> (with
  \<open>specialty\<close>):
  \<^verbatim>\<open>
  filt = {}
  if q:
      filt["name"] = {"$regex": q, "$options": "i"}
  if category:
      filt["category"] = category
  \<close>
\<close>

definition text_filt :: "string \<Rightarrow> string option \<Rightarrow> string option \<Rightarrow> filt" where
  "text_filt field q c =
     (case q of Some p \<Rightarrow> if p \<noteq> [] then [(''name'', Regex p ''i'')] else [] | None \<Rightarrow> []) @
     (case c of Some v \<Rightarrow> if v \<noteq> [] then [(field, Eq (VStr v))] else [] | None \<Rightarrow> [])"

text \<open>
  The filter of \<open>list_consultations\<close>:
  \<^verbatim>\<open>
  filt = {}
  if user_id:
      filt["user_id"] = user_id
  if doctor_id:
      filt["doctor_id"] = doctor_id
  \<close>
\<close>

definition consultation_filt :: "string option \<Rightarrow> string option \<Rightarrow> filt" where
  "consultation_filt user_id doctor_id =
     (case user_id of
        Some u \<Rightarrow> if u \<noteq> [] then [(''user_id'', Eq (VStr u))] else []
      | None \<Rightarrow> []) @
     (case doctor_id of
        Some v \<Rightarrow> if v \<noteq> [] then [(''doctor_id'', Eq (VStr v))] else []
      | None \<Rightarrow> [])"

text \<open>
  The part the five list handlers share, on a configured store:
  \<^verbatim>\<open>
  total = db.<collection>.count_documents(filt)
  cursor = db.<collection>.find(filt).skip(skip).limit(limit)
  items = [to_public(x) for x in cursor]
  return {"total": total, "items": items}
  \<close>
\<close>

definition list_page ::
  "db \<Rightarrow> string \<Rightarrow> filt \<Rightarrow> int \<Rightarrow> int \<Rightarrow> (error + page) \<times> db" where
  "list_page d c f limit skip =
     (case count_documents d c f of
        (Inl e, d1) \<Rightarrow> (Inl e, d1)
      | (Inr n, d1) \<Rightarrow>
          (case find_skip_limit d1 c f skip limit of
             (Inl e, d2) \<Rightarrow> (Inl e, d2)
           | (Inr xs, d2) \<Rightarrow>
               (case to_public_all xs of
                  Inl e \<Rightarrow> (Inl e, d2)
                | Inr ys \<Rightarrow> (Inr \<lparr>total = n, items = ys\<rparr>, d2))))"

text \<open>
  \<open>list_medicines\<close> and \<open>list_doctors\<close> build their filter first, and then count and
  read only if \<open>db\<close> tests true:
  \<^verbatim>\<open>
  total = db.medicine.count_documents(filt) if db else 0
  items = []
  if db:
      cursor = db.medicine.find(filt).skip(skip).limit(limit)
      items = [to_public(x) for x in cursor]
  return {"total": total, "items": items}
  \<close>
\<close>

definition list_medicines ::
  "db option \<Rightarrow> string option \<Rightarrow> string option \<Rightarrow> int \<Rightarrow> int \<Rightarrow> (error + page) \<times> db option"
  where
  "list_medicines db q category limit skip =
     (let filt = text_filt ''category'' q category in
      case truth_test db of
        Inl e \<Rightarrow> (Inl e, db)
      | Inr None \<Rightarrow> (Inr \<lparr>total = 0, items = []\<rparr>, db)
      | Inr (Some d) \<Rightarrow>
          (case list_page d ''medicine'' filt limit skip of (r, d') \<Rightarrow> (r, Some d')))"

definition list_doctors ::
  "db option \<Rightarrow> string option \<Rightarrow> string option \<Rightarrow> int \<Rightarrow> int \<Rightarrow> (error + page) \<times> db option"
  where
  "list_doctors db q specialty limit skip =
     (let filt = text_filt ''specialty'' q specialty in
      case truth_test db of
        Inl e \<Rightarrow> (Inl e, db)
      | Inr None \<Rightarrow> (Inr \<lparr>total = 0, items = []\<rparr>, db)
      | Inr (Some d) \<Rightarrow>
          (case list_page d ''doctor'' filt limit skip of (r, d') \<Rightarrow> (r, Some d')))"

text \<open>
  \<open>list_prescriptions\<close> and \<open>list_orders\<close> return early without a store, and always
  constrain \<open>user_id\<close>, a required parameter:
  \<^verbatim>\<open>
  if not db:
      return {"total": 0, "items": []}
  filt = {"user_id": user_id}
  \<close>
\<close>

definition list_prescriptions ::
  "db option \<Rightarrow> string \<Rightarrow> int \<Rightarrow> int \<Rightarrow> (error + page) \<times> db option" where
  "list_prescriptions db user_id limit skip =
     (case truth_test db of
        Inl e \<Rightarrow> (Inl e, db)
      | Inr None \<Rightarrow> (Inr \<lparr>total = 0, items = []\<rparr>, db)
      | Inr (Some d) \<Rightarrow>
          (let filt = [(''user_id'', Eq (VStr user_id))] in
           case list_page d ''prescription'' filt limit skip of (r, d') \<Rightarrow> (r, Some d')))"

definition list_orders ::
  "db option \<Rightarrow> string \<Rightarrow> int \<Rightarrow> int \<Rightarrow> (error + page) \<times> db option" where
  "list_orders db user_id limit skip =
     (case truth_test db of
        Inl e \<Rightarrow> (Inl e, db)
      | Inr None \<Rightarrow> (Inr \<lparr>total = 0, items = []\<rparr>, db)
      | Inr (Some d) \<Rightarrow>
          (let filt = [(''user_id'', Eq (VStr user_id))] in
           case list_page d ''order'' filt limit skip of (r, d') \<Rightarrow> (r, Some d')))"

definition list_consultations ::
  "db option \<Rightarrow> string option \<Rightarrow> string option \<Rightarrow> int \<Rightarrow> int \<Rightarrow> (error + page) \<times> db option"
  where
  "list_consultations db user_id doctor_id limit skip =
     (case truth_test db of
        Inl e \<Rightarrow> (Inl e, db)
      | Inr None \<Rightarrow> (Inr \<lparr>total = 0, items = []\<rparr>, db)
      | Inr (Some d) \<Rightarrow>
          (let filt = consultation_filt user_id doctor_id in
           case list_page d ''consultation'' filt limit skip of (r, d') \<Rightarrow> (r, Some d')))"

text \<open>
  \<open>get_medicine\<close> and \<open>get_doctor\<close>:
  \<^verbatim>\<open>
  if not db:
      raise HTTPException(500, "Database not configured")
  doc = db.medicine.find_one({"_id": ObjectId(id)})
  if not doc:
      raise HTTPException(404, "Medicine not found")
  return to_public(doc)
  \<close>
  The test of \<open>db\<close> comes first. The argument \<open>ObjectId(id)\<close> is evaluated before
  \<open>find_one\<close> is called, and no handler catches what it raises.
\<close>

definition get_by_id ::
  "string \<Rightarrow> string \<Rightarrow> db option \<Rightarrow> string \<Rightarrow> (error + doc option) \<times> db option" where
  "get_by_id c not_found db ident =
     (case truth_test db of
        Inl e \<Rightarrow> (Inl e, db)
      | Inr None \<Rightarrow> (Inl (HTTPException 500 ''Database not configured''), db)
      | Inr (Some d) \<Rightarrow>
          (case ObjectId ident of
             Inl e \<Rightarrow> (Inl e, Some d)
           | Inr oid \<Rightarrow>
               (case find_one d c [(''_id'', Eq oid)] of
                  (Inl e, d') \<Rightarrow> (Inl e, Some d')
                | (Inr doc, d') \<Rightarrow>
                    if doc = None \<or> doc = Some []
                    then (Inl (HTTPException 404 not_found), Some d')
                    else (to_public doc, Some d'))))"

definition get_medicine :: "db option \<Rightarrow> string \<Rightarrow> (error + doc option) \<times> db option" where
  "get_medicine = get_by_id ''medicine'' ''Medicine not found''"

definition get_doctor :: "db option \<Rightarrow> string \<Rightarrow> (error + doc option) \<times> db option" where
  "get_doctor = get_by_id ''doctor'' ''Doctor not found''"

text \<open>
  \<open>seed_basic\<close>: each of the two collections is filled only when it counts no document.
\<close>

definition seed_medicines :: "doc list" where
  "seed_medicines =
     [[(''name'', VStr ''Paracetamol''), (''brand'', VStr ''Acme Pharma''),
       (''category'', VStr ''Pain Relief''), (''price'', VNum ''2.99''),
       (''stock'', VNum ''120''), (''requires_rx'', VBool False)],
      [(''name'', VStr ''Amoxicillin''), (''brand'', VStr ''Acme Pharma''),
       (''category'', VStr ''Antibiotics''), (''price'', VNum ''5.49''),
       (''stock'', VNum ''80''), (''requires_rx'', VBool True)]]"

definition seed_doctors :: "doc list" where
  "seed_doctors =
     [[(''name'', VStr ''Dr. A. Mehta''), (''specialty'', VStr ''Cardiologist''),
       (''experience_years'', VNum ''12''), (''rating'', VNum ''4.8''),
       (''fee'', VNum ''25.0''), (''languages'', VOther ''['en', 'hi']'')],
      [(''name'', VStr ''Dr. S. Rao''), (''specialty'', VStr ''Dermatologist''),
       (''experience_years'', VNum ''8''), (''rating'', VNum ''4.6''),
       (''fee'', VNum ''20.0''), (''languages'', VOther ''['en']'')]]"

definition seeded :: string where
  "seeded = ''Seeded demo data (if collections were empty)''"

definition seed_basic :: "db option \<Rightarrow> (error + string) \<times> db option" where
  "seed_basic db =
     (case truth_test db of
        Inl e \<Rightarrow> (Inl e, db)
      | Inr None \<Rightarrow> (Inl (HTTPException 500 ''Database not configured''), db)
      | Inr (Some d) \<Rightarrow>
          (case count_documents d ''medicine'' [] of
             (Inl e, d1) \<Rightarrow> (Inl e, Some d1)
           | (Inr n, d1) \<Rightarrow>
               (let d2 = (if n = 0 then insert_many d1 ''medicine'' seed_medicines else d1) in
                case count_documents d2 ''doctor'' [] of
                  (Inl e, d3) \<Rightarrow> (Inl e, Some d3)
                | (Inr m, d3) \<Rightarrow>
                    (let d4 = (if m = 0 then insert_many d3 ''doctor'' seed_doctors else d3) in
                     (Inr seeded, Some d4)))))"

text \<open>A list request: the handler and its filter parameters.\<close>

datatype list_call =
    Medicines "string option" "string option"
  | Doctors "string option" "string option"
  | Prescriptions string
  | Consultations "string option" "string option"
  | Orders string

fun run_list :: "db option \<Rightarrow> list_call \<Rightarrow> int \<Rightarrow> int \<Rightarrow> (error + page) \<times> db option" where
  "run_list db (Medicines q category) limit skip = list_medicines db q category limit skip"
| "run_list db (Doctors q specialty) limit skip = list_doctors db q specialty limit skip"
| "run_list db (Prescriptions user_id) limit skip = list_prescriptions db user_id limit skip"
| "run_list db (Consultations user_id doctor_id) limit skip =
     list_consultations db user_id doctor_id limit skip"
| "run_list db (Orders user_id) limit skip = list_orders db user_id limit skip"

section \<open>Create handlers and routes\<close>















section \<open>Notions used in the statements\<close>

text \<open>The collection and the filter of a list request, as its handler builds them.\<close>

fun coll_of :: "list_call \<Rightarrow> string" where
  "coll_of (Medicines q category) = ''medicine''"
| "coll_of (Doctors q specialty) = ''doctor''"
| "coll_of (Prescriptions user_id) = ''prescription''"
| "coll_of (Consultations user_id doctor_id) = ''consultation''"
| "coll_of (Orders user_id) = ''order''"

fun filt_of :: "list_call \<Rightarrow> filt" where
  "filt_of (Medicines q category) = text_filt ''category'' q category"
| "filt_of (Doctors q specialty) = text_filt ''specialty'' q specialty"
| "filt_of (Prescriptions user_id) = [(''user_id'', Eq (VStr user_id))]"
| "filt_of (Consultations user_id doctor_id) = consultation_filt user_id doctor_id"
| "filt_of (Orders user_id) = [(''user_id'', Eq (VStr user_id))]"

text \<open>Every stored document carries \<open>_id\<close>: the store gives one to each document it takes.\<close>

definition has_ids :: "doc list \<Rightarrow> bool" where
  "has_ids xs = list_all (\<lambda>x. map_of x ''_id'' \<noteq> None) xs"

text \<open>
  An identifier encoding, in the words of the specification a token of 24 hexadecimal
  digits.
\<close>

definition valid_encoding :: "string \<Rightarrow> bool" where
  "valid_encoding ident = (length ident = 24 \<and> list_all hex_digit ident)"

section \<open>Example data\<close>

definition stored_medicine :: doc where
  "stored_medicine =
     [(''_id'', VOid ''65f1a2b3c4d5e6f708192a3b''), (''name'', VStr ''Paracetamol'')]"

definition public_medicine :: doc where
  "public_medicine =
     [(''name'', VStr ''Paracetamol''), (''id'', VStr ''65f1a2b3c4d5e6f708192a3b'')]"

definition demo_db :: db where
  "demo_db =
     \<lparr>colls = (\<lambda>c. if c = ''medicine'' then [stored_medicine] else []),
      calls = 0, next_oid = 0, truth_raises = False, regex_other = (\<lambda>p opts. None)\<rparr>"

definition demo_db_v4 :: db where
  "demo_db_v4 = demo_db\<lparr>truth_raises := True\<rparr>"

definition rx_blank :: doc where
  "rx_blank =
     [(''_id'', VOid ''000000000000000000000001''), (''user_id'', VStr ''''),
      (''status'', VStr ''pending'')]"

definition rx_u1 :: doc where
  "rx_u1 =
     [(''_id'', VOid ''000000000000000000000002''), (''user_id'', VStr ''u1''),
      (''status'', VStr ''pending'')]"


definition dr_mehta :: doc where
  "dr_mehta =
     [(''_id'', VOid ''0000000000000000000000a1''), (''name'', VStr ''Dr. A. Mehta''),
      (''specialty'', VStr ''Cardiologist'')]"

definition consult_u1 :: doc where
  "consult_u1 =
     [(''_id'', VOid ''0000000000000000000000c1''), (''user_id'', VStr ''u1''),
      (''doctor_id'', VStr ''0000000000000000000000a1'')]"

definition order_blank :: doc where
  "order_blank =
     [(''_id'', VOid ''0000000000000000000000e1''), (''user_id'', VStr ''''),
      (''address'', VStr ''1 Main St'')]"

definition order_u1 :: doc where
  "order_u1 =
     [(''_id'', VOid ''0000000000000000000000e2''), (''user_id'', VStr ''u1''),
      (''address'', VStr ''2 Main St'')]"

definition clinic_db :: db where
  "clinic_db =
     \<lparr>colls = (\<lambda>c. if c = ''medicine'' then [stored_medicine]
                   else if c = ''doctor'' then [dr_mehta]
                   else if c = ''prescription'' then [rx_blank, rx_u1]
                   else if c = ''consultation'' then [consult_u1]
                   else if c = ''order'' then [order_blank, order_u1]
                   else []),
      calls = 0, next_oid = 3, truth_raises = False, regex_other = (\<lambda>p opts. None)\<rparr>"

definition clinic_db_v4 :: db where
  "clinic_db_v4 = clinic_db\<lparr>truth_raises := True\<rparr>"

definition padded_id :: string where
  "padded_id = ''65 f1 a2 b3 c4 d5 e6 f7 ''"




section \<open>Properties of the identifier normalizer\<close>

lemma to_public_falsy: "doc = None \<or> doc = Some [] \<Longrightarrow> to_public doc = Inr doc"
  by (auto simp: to_public_def)

lemma map_of_update_delete_id:
  "map_of (AList.update ''id'' w (AList.delete ''_id'' d)) ''_id'' = None"
  by (simp add: update_conv' delete_conv')

lemma update_not_Nil: "AList.update k v xs \<noteq> []"
  by (cases xs) auto

lemma to_public_result:
  assumes "to_public (Some d) = Inr r" and "d \<noteq> []"
  shows "\<exists>v. map_of d ''_id'' = Some v \<and>
             r = Some (AList.update ''id'' (VStr (str v)) (AList.delete ''_id'' d))"
  using assms by (auto simp: to_public_def split: option.splits)

text \<open>
  C8. The normalizer does not fail on an empty or an absent document: for \<open>None\<close> and for
  the empty \<open>dict\<close> it returns its argument unchanged, and that result is not the
  \<open>KeyError\<close> of the missing internal identifier.
\<close>

theorem to_public_empty_or_absent:
  "to_public None = Inr None \<and> to_public (Some []) = Inr (Some []) \<and>
   to_public None \<noteq> Inl (KeyError ''_id'') \<and> to_public (Some []) \<noteq> Inl (KeyError ''_id'')"
  by (simp add: to_public_def)

text \<open>
  C2, as the code has it. The normalizer is a no-op on an empty or absent document only.
  Whenever it succeeds on a document that is not empty, its result has no \<open>_id\<close> key
  left and is not empty, so a second application to that result raises \<open>KeyError\<close>.
\<close>

theorem to_public_twice:
  "to_public doc = Inr r \<Longrightarrow>
     (case to_public r of
        Inr r' \<Rightarrow> (doc = None \<or> doc = Some []) \<and> r' = r
      | Inl e \<Rightarrow> doc \<noteq> None \<and> doc \<noteq> Some [] \<and> e = KeyError ''_id'')"
proof (cases "doc = None \<or> doc = Some []")
  case True
  assume "to_public doc = Inr r"
  with True have "r = doc" using to_public_falsy [of doc] by simp
  with True show ?thesis using to_public_falsy [of doc] by auto
next
  case False
  assume ok: "to_public doc = Inr r"
  from False obtain d where d: "doc = Some d" "d \<noteq> []" by auto
  from to_public_result [OF ok [unfolded d(1)] d(2)] obtain v where
    r: "r = Some (AList.update ''id'' (VStr (str v)) (AList.delete ''_id'' d))" by blast
  have "to_public r = Inl (KeyError ''_id'')"
    unfolding r by (simp add: to_public_def update_not_Nil map_of_update_delete_id)
  with False show ?thesis by simp
qed

theorem to_public_twice_witness:
  "to_public (Some stored_medicine) = Inr (Some public_medicine) \<and>
   (case to_public (Some public_medicine) of
      Inr r' \<Rightarrow> False
    | Inl e \<Rightarrow> e = KeyError ''_id'')"
proof -
  have ok: "to_public (Some stored_medicine) = Inr (Some public_medicine)"
    by (simp add: to_public_def stored_medicine_def public_medicine_def)
  have ne: "stored_medicine \<noteq> []"
    by (simp add: stored_medicine_def)
  from to_public_twice [OF ok] show ?thesis
    using ok ne by (auto split: sum.splits)
qed

text \<open>
  The claim of idempotence fails at a stored document: one application succeeds, the
  second one, on the result of the first, raises.
\<close>

theorem to_public_not_idempotent:
  "to_public (Some stored_medicine) = Inr (Some public_medicine) \<and>
   to_public (Some public_medicine) = Inl (KeyError ''_id'') \<and>
   to_public (Some public_medicine) \<noteq> to_public (Some stored_medicine)"
  by (simp add: to_public_def stored_medicine_def public_medicine_def)

section \<open>Pages of the list handlers\<close>

lemma to_public_all_length: "to_public_all xs = Inr ys \<Longrightarrow> length ys = length xs"
  by (induction xs arbitrary: ys) (auto split: sum.splits)

lemma to_public_all_returns:
  assumes "has_ids xs"
  shows "\<exists>ys. to_public_all xs = Inr ys"
  using assms
proof (induction xs)
  case Nil
  then show ?case by simp
next
  case (Cons x xs)
  then obtain ys where ys: "to_public_all xs = Inr ys" by (auto simp: has_ids_def)
  from Cons.prems obtain v where "map_of x ''_id'' = Some v" by (auto simp: has_ids_def)
  then have "\<exists>y. to_public (Some x) = Inr y"
    by (simp add: to_public_def)
  with ys show ?case by auto
qed

lemma page_of_length: "length (page_of skip limit ms) \<le> length ms"
  by (auto simp: page_of_def)

lemma page_of_limit: "0 < limit \<Longrightarrow> int (length (page_of skip limit ms)) \<le> limit"
  by (simp add: page_of_def)

lemma page_of_subset: "set (page_of skip limit ms) \<subseteq> set ms"
proof
  fix x
  assume "x \<in> set (page_of skip limit ms)"
  then have "x \<in> set (drop (nat skip) ms)"
    by (cases "limit = 0") (auto simp: page_of_def dest: in_set_takeD)
  then show "x \<in> set ms" by (rule in_set_dropD)
qed

lemma has_ids_page: "has_ids xs \<Longrightarrow> has_ids (page_of skip limit (filter P xs))"
proof -
  assume h: "has_ids xs"
  have "set (page_of skip limit (filter P xs)) \<subseteq> set xs"
    using page_of_subset [of skip limit "filter P xs"] by auto
  with h show ?thesis by (auto simp: has_ids_def list_all_iff)
qed

lemma list_page_eq:
  "list_page d c f limit skip =
     (if \<not> filt_valid (regex_other d) f
      then (Inl (OperationFailure c), d\<lparr>calls := Suc (calls d)\<rparr>)
      else if skip < 0
      then (Inl (ValueError ''skip must be >= 0''), d\<lparr>calls := Suc (calls d)\<rparr>)
      else (case to_public_all
                  (page_of skip limit (filter (doc_matches (regex_other d) f) (colls d c))) of
              Inl e \<Rightarrow> (Inl e, d\<lparr>calls := Suc (Suc (calls d))\<rparr>)
            | Inr ys \<Rightarrow>
                (Inr \<lparr>total = length (filter (doc_matches (regex_other d) f) (colls d c)),
                      items = ys\<rparr>,
                 d\<lparr>calls := Suc (Suc (calls d))\<rparr>)))"
proof (cases "filt_valid (regex_other d) f")
  case False
  then show ?thesis by (simp add: list_page_def count_documents_def)
next
  case True
  show ?thesis
  proof (cases "skip < 0")
    case neg: True
    with True show ?thesis
      by (simp add: list_page_def count_documents_def find_skip_limit_def)
  next
    case False
    with True show ?thesis
      by (cases "to_public_all
                  (page_of skip limit (filter (doc_matches (regex_other d) f) (colls d c)))")
         (simp_all add: list_page_def count_documents_def find_skip_limit_def)
  qed
qed

lemma list_page_Inr:
  assumes "list_page d c f limit skip = (Inr pg, d')"
  shows "filt_valid (regex_other d) f \<and> 0 \<le> skip \<and>
         total pg = length (filter (doc_matches (regex_other d) f) (colls d c)) \<and>
         to_public_all (page_of skip limit (filter (doc_matches (regex_other d) f) (colls d c)))
           = Inr (items pg) \<and>
         d' = d\<lparr>calls := Suc (Suc (calls d))\<rparr>"
  using assms unfolding list_page_eq by (auto split: if_splits sum.splits)

lemma list_page_returns:
  assumes "filt_valid (regex_other d) f" and "0 \<le> skip" and "has_ids (colls d c)"
  shows "\<exists>ys. list_page d c f limit skip =
           (Inr \<lparr>total = length (filter (doc_matches (regex_other d) f) (colls d c)), items = ys\<rparr>,
            d\<lparr>calls := Suc (Suc (calls d))\<rparr>) \<and>
          to_public_all (page_of skip limit (filter (doc_matches (regex_other d) f) (colls d c)))
            = Inr ys"
proof -
  from to_public_all_returns [OF has_ids_page [OF assms(3)]] obtain ys where
    "to_public_all (page_of skip limit (filter (doc_matches (regex_other d) f) (colls d c)))
       = Inr ys" ..
  with assms(1,2) show ?thesis unfolding list_page_eq by simp
qed

lemma run_list_eq:
  "run_list db call limit skip =
     (case truth_test db of
        Inl e \<Rightarrow> (Inl e, db)
      | Inr None \<Rightarrow> (Inr \<lparr>total = 0, items = []\<rparr>, db)
      | Inr (Some d) \<Rightarrow>
          (case list_page d (coll_of call) (filt_of call) limit skip of (r, d') \<Rightarrow> (r, Some d')))"
proof (cases "truth_test db")
  case (Inl e)
  then show ?thesis
    by (cases call)
       (simp_all add: list_medicines_def list_doctors_def list_prescriptions_def
          list_consultations_def list_orders_def)
next
  case (Inr h)
  then show ?thesis
    by (cases call; cases h)
       (simp_all add: list_medicines_def list_doctors_def list_prescriptions_def
          list_consultations_def list_orders_def)
qed

lemma truth_test_simps:
  "truth_test None = Inr None"
  "truth_raises d \<Longrightarrow> truth_test (Some d) = Inl NotImplementedError"
  "\<not> truth_raises d \<Longrightarrow> truth_test (Some d) = Inr (Some d)"
  by (simp_all add: truth_test_def)

lemma run_list_None: "run_list None call limit skip = (Inr \<lparr>total = 0, items = []\<rparr>, None)"
  by (simp add: run_list_eq truth_test_simps)

lemma run_list_raises:
  "truth_raises d \<Longrightarrow> run_list (Some d) call limit skip = (Inl NotImplementedError, Some d)"
  by (simp add: run_list_eq truth_test_simps)

lemma run_list_true:
  "\<not> truth_raises d \<Longrightarrow>
   run_list (Some d) call limit skip =
     (case list_page d (coll_of call) (filt_of call) limit skip of (r, d') \<Rightarrow> (r, Some d'))"
  by (simp add: run_list_eq truth_test_simps)

text \<open>
  C5, as the code has it. Every page a list call returns has at most \<open>total\<close> items,
  and at most \<open>limit\<close> items when \<open>limit\<close> is positive; \<open>total\<close> is the number of all
  documents of the collection that match the filter, with no pagination applied, when
  the store was read, and 0 when the store is not configured. Without a store the call
  returns the empty page; on a handle that tests true it returns a page whenever the
  store accepts the filter, \<open>skip\<close> is not negative and the stored documents carry
  \<open>_id\<close>. The endpoints accept any integer as \<open>limit\<close>.
\<close>

theorem list_bounds:
  "(run_list db call limit skip = (Inr pg, db') \<longrightarrow>
      length (items pg) \<le> total pg \<and>
      (0 < limit \<longrightarrow> int (length (items pg)) \<le> limit) \<and>
      (case db of
         None \<Rightarrow> total pg = 0 \<and> items pg = []
       | Some d \<Rightarrow>
           total pg =
             length (filter (doc_matches (regex_other d) (filt_of call)) (colls d (coll_of call))) \<and>
           to_public_all
             (page_of skip limit
                (filter (doc_matches (regex_other d) (filt_of call)) (colls d (coll_of call))))
             = Inr (items pg))) \<and>
   run_list None call limit skip = (Inr \<lparr>total = 0, items = []\<rparr>, None) \<and>
   (\<forall>d. db = Some d \<and> \<not> truth_raises d \<and> filt_valid (regex_other d) (filt_of call) \<and>
        0 \<le> skip \<and> has_ids (colls d (coll_of call)) \<longrightarrow>
        (\<exists>pg' db''. run_list db call limit skip = (Inr pg', db'')))"
proof (intro conjI impI allI)
  assume run: "run_list db call limit skip = (Inr pg, db')"
  show c: "case db of
         None \<Rightarrow> total pg = 0 \<and> items pg = []
       | Some d \<Rightarrow>
           total pg =
             length (filter (doc_matches (regex_other d) (filt_of call)) (colls d (coll_of call))) \<and>
           to_public_all
             (page_of skip limit
                (filter (doc_matches (regex_other d) (filt_of call)) (colls d (coll_of call))))
             = Inr (items pg)"
  proof (cases db)
    case None
    with run show ?thesis by (auto simp: run_list_None)
  next
    case (Some d)
    with run have t: "\<not> truth_raises d" by (auto simp: run_list_raises)
    with run Some obtain d' where
      "list_page d (coll_of call) (filt_of call) limit skip = (Inr pg, d')"
      by (auto simp: run_list_true split: prod.splits)
    from list_page_Inr [OF this] Some show ?thesis by simp
  qed
  show "length (items pg) \<le> total pg"
  proof (cases db)
    case None
    with c show ?thesis by simp
  next
    case (Some d)
    with c have t: "total pg =
             length (filter (doc_matches (regex_other d) (filt_of call)) (colls d (coll_of call)))"
      and i: "to_public_all
             (page_of skip limit
                (filter (doc_matches (regex_other d) (filt_of call)) (colls d (coll_of call))))
             = Inr (items pg)" by simp_all
    from to_public_all_length [OF i] t show ?thesis by (simp add: page_of_length)
  qed
  show "int (length (items pg)) \<le> limit" if "0 < limit"
  proof (cases db)
    case None
    with c that show ?thesis by simp
  next
    case (Some d)
    with c have i: "to_public_all
             (page_of skip limit
                (filter (doc_matches (regex_other d) (filt_of call)) (colls d (coll_of call))))
             = Inr (items pg)" by simp
    from to_public_all_length [OF i] show ?thesis by (simp add: page_of_limit [OF that])
  qed
next
  show "run_list None call limit skip = (Inr \<lparr>total = 0, items = []\<rparr>, None)"
    by (rule run_list_None)
next
  fix d
  assume a: "db = Some d \<and> \<not> truth_raises d \<and> filt_valid (regex_other d) (filt_of call) \<and>
        0 \<le> skip \<and> has_ids (colls d (coll_of call))"
  then obtain ys where
    "list_page d (coll_of call) (filt_of call) limit skip =
       (Inr \<lparr>total = length (filter (doc_matches (regex_other d) (filt_of call))
                               (colls d (coll_of call))), items = ys\<rparr>,
        d\<lparr>calls := Suc (Suc (calls d))\<rparr>)"
    using list_page_returns by blast
  with a show "\<exists>pg' db''. run_list db call limit skip = (Inr pg', db'')"
    by (simp add: run_list_true)
qed

lemma demo_page:
  "run_list (Some demo_db) (Medicines None None) 1 0 =
     (Inr \<lparr>total = 1, items = [Some public_medicine]\<rparr>, Some (demo_db\<lparr>calls := 2\<rparr>))"
  by (simp add: list_medicines_def truth_test_def text_filt_def list_page_eq filt_valid_def
        doc_matches_def page_of_def demo_db_def to_public_def stored_medicine_def
        public_medicine_def)

theorem list_bounds_witness:
  "run_list (Some demo_db) (Medicines None None) 1 0 =
     (Inr \<lparr>total = 1, items = [Some public_medicine]\<rparr>, Some (demo_db\<lparr>calls := 2\<rparr>)) \<and>
   length [Some public_medicine] \<le> (1::nat) \<and> int (length [Some public_medicine]) \<le> 1 \<and>
   length (filter (doc_matches (regex_other demo_db) (filt_of (Medicines None None)))
             (colls demo_db ''medicine'')) = 1 \<and>
   run_list None (Orders ''u1'') 1 0 = (Inr \<lparr>total = 0, items = []\<rparr>, None)"
proof -
  note b = list_bounds [of "Some demo_db" "Medicines None None" 1 0
      "\<lparr>total = 1, items = [Some public_medicine]\<rparr>" "Some (demo_db\<lparr>calls := 2\<rparr>)"]
  from b demo_page have
    "length (filter (doc_matches (regex_other demo_db) (filt_of (Medicines None None)))
             (colls demo_db ''medicine'')) = 1"
    by simp
  moreover from list_bounds [of None "Orders ''u1''" 1 0] have
    "run_list None (Orders ''u1'') 1 0 = (Inr \<lparr>total = 0, items = []\<rparr>, None)"
    by blast
  ultimately show ?thesis using demo_page by simp
qed

text \<open>
  The bound by \<open>limit\<close> fails at a negative \<open>limit\<close>, a value the endpoint accepts: the
  empty page of the unconfigured store has more items than \<open>limit\<close> allows.
\<close>

theorem negative_limit_unbounded:
  "run_list None (Medicines None None) (- 1) 0 = (Inr \<lparr>total = 0, items = []\<rparr>, None) \<and>
   \<not> int (length ([] :: doc option list)) \<le> - 1"
  by (simp add: list_medicines_def truth_test_def)

text \<open>
  On a store that is read, a limit of 0 is no limit, and a pattern outside the fragment
  is the engine's to match.
\<close>

lemma limit_zero_unbounded:
  "run_list (Some demo_db) (Medicines None None) 0 0 =
     (Inr \<lparr>total = 1, items = [Some public_medicine]\<rparr>, Some (demo_db\<lparr>calls := 2\<rparr>)) \<and>
   \<not> int (length [Some public_medicine]) \<le> 0"
  by (simp add: list_medicines_def truth_test_def text_filt_def list_page_eq filt_valid_def
        doc_matches_def page_of_def demo_db_def to_public_def stored_medicine_def
        public_medicine_def)

lemma other_engine_page:
  "run_list (Some (demo_db\<lparr>regex_other := (\<lambda>p opts. Some (\<lambda>s. True))\<rparr>))
     (Medicines (Some ''^Para'') None) 50 0 =
     (Inr \<lparr>total = 1, items = [Some public_medicine]\<rparr>,
      Some (demo_db\<lparr>regex_other := (\<lambda>p opts. Some (\<lambda>s. True)), calls := 2\<rparr>))"
  by (simp add: list_medicines_def truth_test_def text_filt_def list_page_eq filt_valid_def
        doc_matches_def page_of_def demo_db_def to_public_def stored_medicine_def
        public_medicine_def regex_meta_def)

section \<open>Failures of the handlers\<close>

text \<open>
  C4. Without a configured store every list endpoint returns the empty page, whatever
  its parameters, and the two get-by-id endpoints and the seed endpoint fail with the
  \<open>HTTPException\<close> of status 500, whatever the identifier.
\<close>

theorem store_unavailable:
  "run_list None call limit skip = (Inr \<lparr>total = 0, items = []\<rparr>, None) \<and>
   get_medicine None ident = (Inl (HTTPException 500 ''Database not configured''), None) \<and>
   get_doctor None ident = (Inl (HTTPException 500 ''Database not configured''), None) \<and>
   seed_basic None = (Inl (HTTPException 500 ''Database not configured''), None) \<and>
   server_error (status_code (HTTPException 500 ''Database not configured''))"
  by (simp add: run_list_None get_medicine_def get_doctor_def get_by_id_def
        seed_basic_def server_error_def truth_test_simps)

lemma fromhex_length:
  "fromhex s = Some h \<Longrightarrow> length h \<le> length s \<and> (length h = length s \<longrightarrow> list_all hex_digit s)"
proof (induction s arbitrary: h rule: fromhex.induct)
  case 1
  then show ?case by simp
next
  case (2 c)
  then show ?case by (auto split: if_splits)
next
  case (3 c d cs)
  show ?case
  proof (cases "ascii_space c")
    case True
    with "3.prems" have "fromhex (d # cs) = Some h" by simp
    from "3.IH"(1) [OF True this] show ?thesis by auto
  next
    case False
    with "3.prems" obtain r where hd: "hex_digit c \<and> hex_digit d"
      and r: "fromhex cs = Some r" and h: "h = lower c # lower d # r"
      by (auto split: if_splits option.splits)
    from "3.IH"(2) [OF False hd r] show ?thesis using hd h by auto
  qed
qed

lemma ObjectId_cases:
  "ObjectId ident = Inl (InvalidId ident) \<or> (\<exists>h. ObjectId ident = Inr (VOid h))"
  by (auto simp: ObjectId_def split: option.splits)

lemma ObjectId_padded:
  assumes "\<not> valid_encoding ident" and "ObjectId ident = Inr oid"
  shows "\<exists>h. oid = VOid h \<and> length h < 24"
proof -
  from assms(2) obtain h where len: "length ident = 24" and fh: "fromhex ident = Some h"
    and oid: "oid = VOid h"
    by (auto simp: ObjectId_def split: if_splits option.splits)
  from fromhex_length [OF fh] assms(1) len have "length h < 24"
    by (auto simp: valid_encoding_def)
  with oid show ?thesis by simp
qed

lemma get_by_id_fails:
  assumes "db = None \<or> (\<exists>d. db = Some d \<and> truth_raises d) \<or> ObjectId ident = Inl (InvalidId ident)"
  shows "\<exists>e. get_by_id c nf db ident = (Inl e, db) \<and>
             e = (if db = None then HTTPException 500 ''Database not configured''
                  else if truth_raises (the db) then NotImplementedError
                  else InvalidId ident)"
proof (cases db)
  case None
  then show ?thesis by (simp add: get_by_id_def truth_test_simps)
next
  case (Some d)
  show ?thesis
  proof (cases "truth_raises d")
    case True
    with Some show ?thesis by (simp add: get_by_id_def truth_test_simps)
  next
    case False
    with Some assms have "ObjectId ident = Inl (InvalidId ident)" by auto
    with Some False show ?thesis by (simp add: get_by_id_def truth_test_simps)
  qed
qed

lemma get_by_id_reaches:
  assumes "\<not> truth_raises d" and "ObjectId ident = Inr (VOid h)"
  shows "\<exists>r. get_by_id c nf (Some d) ident = (r, Some (d\<lparr>calls := Suc (calls d)\<rparr>)) \<and>
             ((\<forall>x \<in> set (colls d c). map_of x ''_id'' \<noteq> Some (VOid h)) \<longrightarrow>
                r = Inl (HTTPException 404 nf))"
proof -
  have m: "doc_matches rx [(''_id'', Eq (VOid h))] x = (map_of x ''_id'' = Some (VOid h))" for rx x
    by (simp add: doc_matches_def)
  have "filter (doc_matches (regex_other d) [(''_id'', Eq (VOid h))]) (colls d c) = []"
    if "\<forall>x \<in> set (colls d c). map_of x ''_id'' \<noteq> Some (VOid h)"
    using that by (simp add: m filter_empty_conv)
  then show ?thesis using assms
    by (auto simp: get_by_id_def truth_test_simps find_one_def filt_valid_def)
qed

text \<open>
  C3, as the code has it. Take a get-by-id call whose identifier is not 24 hexadecimal
  digits. When the store is not configured, or the truth test of the handle raises, or
  \<open>ObjectId\<close> rejects the identifier, the call fails with an error of status 500, which
  is no client error, and the store is left as it was, with no round trip counted.
  \<open>ObjectId\<close> accepts such an identifier only when it is padded with white space; then,
  on a handle that tests true, the identifier it yields is shorter than 12 bytes, the
  store is asked once, and the answer is the 404 of the handler when no stored \<open>_id\<close>
  equals it.
\<close>

theorem get_by_id_malformed:
  assumes "\<not> valid_encoding ident"
  shows "(db = None \<or> (\<exists>d. db = Some d \<and> truth_raises d) \<or>
            ObjectId ident = Inl (InvalidId ident) \<longrightarrow>
          (\<exists>e. get_medicine db ident = (Inl e, db) \<and> get_doctor db ident = (Inl e, db) \<and>
               status_code e = 500 \<and> \<not> client_error (status_code e))) \<and>
         (\<forall>d oid. db = Some d \<and> \<not> truth_raises d \<and> ObjectId ident = Inr oid \<longrightarrow>
            (\<exists>h. oid = VOid h \<and> length h < 24) \<and>
            (\<exists>r. get_medicine db ident = (r, Some (d\<lparr>calls := Suc (calls d)\<rparr>)) \<and>
                 ((\<forall>x \<in> set (colls d ''medicine''). map_of x ''_id'' \<noteq> Some oid) \<longrightarrow>
                    r = Inl (HTTPException 404 ''Medicine not found''))) \<and>
            (\<exists>r. get_doctor db ident = (r, Some (d\<lparr>calls := Suc (calls d)\<rparr>)) \<and>
                 ((\<forall>x \<in> set (colls d ''doctor''). map_of x ''_id'' \<noteq> Some oid) \<longrightarrow>
                    r = Inl (HTTPException 404 ''Doctor not found''))))"
proof (intro conjI impI allI)
  assume a: "db = None \<or> (\<exists>d. db = Some d \<and> truth_raises d) \<or>
            ObjectId ident = Inl (InvalidId ident)"
  from get_by_id_fails [OF a, of "''medicine''" "''Medicine not found''"]
    get_by_id_fails [OF a, of "''doctor''" "''Doctor not found''"]
  show "\<exists>e. get_medicine db ident = (Inl e, db) \<and> get_doctor db ident = (Inl e, db) \<and>
               status_code e = 500 \<and> \<not> client_error (status_code e)"
    by (auto simp: get_medicine_def get_doctor_def client_error_def)
next
  fix d oid
  assume a: "db = Some d \<and> \<not> truth_raises d \<and> ObjectId ident = Inr oid"
  from ObjectId_padded [OF assms] a obtain h where h: "oid = VOid h" "length h < 24" by blast
  then show "\<exists>h. oid = VOid h \<and> length h < 24" by blast
  from a h get_by_id_reaches [of d ident h "''medicine''" "''Medicine not found''"]
  show "\<exists>r. get_medicine db ident = (r, Some (d\<lparr>calls := Suc (calls d)\<rparr>)) \<and>
                 ((\<forall>x \<in> set (colls d ''medicine''). map_of x ''_id'' \<noteq> Some oid) \<longrightarrow>
                    r = Inl (HTTPException 404 ''Medicine not found''))"
    by (simp add: get_medicine_def)
  from a h get_by_id_reaches [of d ident h "''doctor''" "''Doctor not found''"]
  show "\<exists>r. get_doctor db ident = (r, Some (d\<lparr>calls := Suc (calls d)\<rparr>)) \<and>
                 ((\<forall>x \<in> set (colls d ''doctor''). map_of x ''_id'' \<noteq> Some oid) \<longrightarrow>
                    r = Inl (HTTPException 404 ''Doctor not found''))"
    by (simp add: get_doctor_def)
qed

lemma bogus_not_valid: "\<not> valid_encoding ''bogus-id''"
  by (simp add: valid_encoding_def)

lemma bogus_invalid: "ObjectId ''bogus-id'' = Inl (InvalidId ''bogus-id'')"
  by (simp add: ObjectId_def)

lemma padded_not_valid: "\<not> valid_encoding padded_id"
  by (simp add: valid_encoding_def padded_id_def hex_digit_def)

lemma padded_accepted: "ObjectId padded_id = Inr (VOid ''65f1a2b3c4d5e6f7'')"
  by (simp add: ObjectId_def padded_id_def hex_digit_def ascii_space_def lower_def)

theorem get_by_id_malformed_witness:
  "\<not> valid_encoding ''bogus-id'' \<and>
   get_medicine (Some demo_db) ''bogus-id'' = (Inl (InvalidId ''bogus-id''), Some demo_db) \<and>
   get_doctor (Some demo_db) ''bogus-id'' = (Inl (InvalidId ''bogus-id''), Some demo_db) \<and>
   status_code (InvalidId ''bogus-id'') = 500 \<and>
   \<not> valid_encoding padded_id \<and>
   get_medicine (Some demo_db) padded_id =
     (Inl (HTTPException 404 ''Medicine not found''), Some (demo_db\<lparr>calls := 1\<rparr>))"
proof -
  from get_by_id_malformed [OF bogus_not_valid, of "Some demo_db"] bogus_invalid
  have 1: "get_medicine (Some demo_db) ''bogus-id'' = (Inl (InvalidId ''bogus-id''), Some demo_db) \<and>
           get_doctor (Some demo_db) ''bogus-id'' = (Inl (InvalidId ''bogus-id''), Some demo_db)"
    by (auto simp: get_medicine_def get_doctor_def get_by_id_def truth_test_def demo_db_def)
  have t: "\<not> truth_raises demo_db" "calls demo_db = 0" by (simp_all add: demo_db_def)
  have n: "\<forall>x \<in> set (colls demo_db ''medicine''). map_of x ''_id'' \<noteq> Some (VOid ''65f1a2b3c4d5e6f7'')"
    by (simp add: demo_db_def stored_medicine_def)
  from get_by_id_malformed [OF padded_not_valid, of "Some demo_db"] padded_accepted t n
  have 2: "get_medicine (Some demo_db) padded_id =
     (Inl (HTTPException 404 ''Medicine not found''), Some (demo_db\<lparr>calls := 1\<rparr>))"
    by auto
  from 1 2 show ?thesis by (simp add: bogus_not_valid padded_not_valid)
qed

text \<open>
  The status of a get-by-id call with a malformed identifier is 500, not a client error,
  whether the store is not configured, the truth test of the handle raises, or the
  handle tests true.
\<close>

theorem malformed_id_not_client_error:
  "get_medicine None ''bogus-id'' = (Inl (HTTPException 500 ''Database not configured''), None) \<and>
   get_medicine (Some demo_db_v4) ''bogus-id'' = (Inl NotImplementedError, Some demo_db_v4) \<and>
   get_medicine (Some demo_db) ''bogus-id'' = (Inl (InvalidId ''bogus-id''), Some demo_db) \<and>
   \<not> client_error (status_code (HTTPException 500 ''Database not configured'')) \<and>
   \<not> client_error (status_code NotImplementedError) \<and>
   \<not> client_error (status_code (InvalidId ''bogus-id''))"
  by (simp add: get_medicine_def get_by_id_def truth_test_def demo_db_v4_def demo_db_def
        ObjectId_def client_error_def)

text \<open>A well-formed identifier, in either case of its letters, does reach the store.\<close>

lemma valid_id_queries:
  "get_medicine (Some demo_db) ''65F1A2B3C4D5E6F708192A3B'' =
     (Inr (Some public_medicine), Some (demo_db\<lparr>calls := 1\<rparr>))"
  by (simp add: get_medicine_def get_by_id_def truth_test_def ObjectId_def find_one_def
        filt_valid_def doc_matches_def demo_db_def stored_medicine_def public_medicine_def
        to_public_def hex_digit_def ascii_space_def lower_def)

section \<open>The open filter\<close>

lemma doc_matches_Nil: "doc_matches rx [] x"
  by (simp add: doc_matches_def)

lemma filter_doc_matches_Nil: "filter (doc_matches rx []) xs = xs"
  by (simp add: doc_matches_Nil)

lemma filt_valid_Nil: "filt_valid rx []"
  by (simp add: filt_valid_def)

lemma text_filt_open: "\<not> truthy q \<Longrightarrow> \<not> truthy c \<Longrightarrow> text_filt field q c = []"
  by (auto simp: truthy_def text_filt_def split: option.splits)

lemma consultation_filt_open:
  "\<not> truthy u \<Longrightarrow> \<not> truthy v \<Longrightarrow> consultation_filt u v = []"
  by (auto simp: truthy_def consultation_filt_def split: option.splits)

lemma run_list_open:
  assumes "filt_of call = []"
  shows "(run_list (Some d) call limit skip = (Inr pg, db') \<longrightarrow>
            total pg = length (colls d (coll_of call)) \<and>
            to_public_all (page_of skip limit (colls d (coll_of call))) = Inr (items pg)) \<and>
         (\<not> truth_raises d \<and> 0 \<le> skip \<and> has_ids (colls d (coll_of call)) \<longrightarrow>
            (\<exists>ys. run_list (Some d) call limit skip =
                     (Inr \<lparr>total = length (colls d (coll_of call)), items = ys\<rparr>,
                      Some (d\<lparr>calls := Suc (Suc (calls d))\<rparr>)) \<and>
                   to_public_all (page_of skip limit (colls d (coll_of call))) = Inr ys))"
proof (rule conjI; rule impI)
  assume run: "run_list (Some d) call limit skip = (Inr pg, db')"
  then have t: "\<not> truth_raises d" by (auto simp: run_list_raises)
  with run obtain d' where
    "list_page d (coll_of call) [] limit skip = (Inr pg, d')"
    by (auto simp: run_list_true assms split: prod.splits)
  from list_page_Inr [OF this]
  show "total pg = length (colls d (coll_of call)) \<and>
        to_public_all (page_of skip limit (colls d (coll_of call))) = Inr (items pg)"
    by (simp add: filter_doc_matches_Nil)
next
  assume a: "\<not> truth_raises d \<and> 0 \<le> skip \<and> has_ids (colls d (coll_of call))"
  then have "0 \<le> skip" "has_ids (colls d (coll_of call))" by simp_all
  from list_page_returns [OF filt_valid_Nil this, of limit] a
  show "\<exists>ys. run_list (Some d) call limit skip =
                     (Inr \<lparr>total = length (colls d (coll_of call)), items = ys\<rparr>,
                      Some (d\<lparr>calls := Suc (Suc (calls d))\<rparr>)) \<and>
                   to_public_all (page_of skip limit (colls d (coll_of call))) = Inr ys"
    by (auto simp: run_list_true assms filter_doc_matches_Nil)
qed

text \<open>
  C7, as the code has it. On the three list endpoints whose filter parameters are
  optional (medicines, doctors, consultations), when both parameters are absent or empty
  the filter built is the empty one, which every document matches. Whenever such a call
  returns a page, its total is the size of the whole collection and its items are the
  normalized page of the whole collection; and on a handle that tests true, with a
  \<open>skip\<close> that is not negative and stored documents that carry \<open>_id\<close>, the call does
  return that page, after two round trips.
\<close>

theorem open_filter:
  assumes "a = None \<or> a = Some []" and "b = None \<or> b = Some []"
  shows "text_filt field a b = [] \<and> consultation_filt a b = [] \<and>
         (\<forall>rx x. doc_matches rx [] x) \<and>
         (list_medicines (Some d) a b limit skip = (Inr pg, db') \<longrightarrow>
            total pg = length (colls d ''medicine'') \<and>
            to_public_all (page_of skip limit (colls d ''medicine'')) = Inr (items pg)) \<and>
         (list_doctors (Some d) a b limit skip = (Inr pg, db') \<longrightarrow>
            total pg = length (colls d ''doctor'') \<and>
            to_public_all (page_of skip limit (colls d ''doctor'')) = Inr (items pg)) \<and>
         (list_consultations (Some d) a b limit skip = (Inr pg, db') \<longrightarrow>
            total pg = length (colls d ''consultation'') \<and>
            to_public_all (page_of skip limit (colls d ''consultation'')) = Inr (items pg)) \<and>
         (\<not> truth_raises d \<and> 0 \<le> skip \<and> has_ids (colls d ''medicine'') \<longrightarrow>
            (\<exists>ys. list_medicines (Some d) a b limit skip =
                     (Inr \<lparr>total = length (colls d ''medicine''), items = ys\<rparr>,
                      Some (d\<lparr>calls := Suc (Suc (calls d))\<rparr>)) \<and>
                   to_public_all (page_of skip limit (colls d ''medicine'')) = Inr ys)) \<and>
         (\<not> truth_raises d \<and> 0 \<le> skip \<and> has_ids (colls d ''doctor'') \<longrightarrow>
            (\<exists>ys. list_doctors (Some d) a b limit skip =
                     (Inr \<lparr>total = length (colls d ''doctor''), items = ys\<rparr>,
                      Some (d\<lparr>calls := Suc (Suc (calls d))\<rparr>)) \<and>
                   to_public_all (page_of skip limit (colls d ''doctor'')) = Inr ys)) \<and>
         (\<not> truth_raises d \<and> 0 \<le> skip \<and> has_ids (colls d ''consultation'') \<longrightarrow>
            (\<exists>ys. list_consultations (Some d) a b limit skip =
                     (Inr \<lparr>total = length (colls d ''consultation''), items = ys\<rparr>,
                      Some (d\<lparr>calls := Suc (Suc (calls d))\<rparr>)) \<and>
                   to_public_all (page_of skip limit (colls d ''consultation'')) = Inr ys))"
proof -
  from assms have t: "\<not> truthy a" "\<not> truthy b" by (auto simp: truthy_def)
  have f1: "text_filt field a b = []" for field by (rule text_filt_open [OF t])
  have f2: "consultation_filt a b = []" by (rule consultation_filt_open [OF t])
  have m: "filt_of (Medicines a b) = []" by (simp add: f1)
  have dr: "filt_of (Doctors a b) = []" by (simp add: f1)
  have c: "filt_of (Consultations a b) = []" by (simp add: f2)
  from run_list_open [OF m, of d limit skip pg db']
    run_list_open [OF dr, of d limit skip pg db']
    run_list_open [OF c, of d limit skip pg db']
  show ?thesis by (simp add: f1 f2 doc_matches_Nil)
qed


lemma clinic_facts:
  "\<not> truth_raises clinic_db" "calls clinic_db = 0"
  "colls clinic_db ''medicine'' = [stored_medicine]"
  "colls clinic_db ''doctor'' = [dr_mehta]"
  "colls clinic_db ''consultation'' = [consult_u1]"
  "colls clinic_db ''prescription'' = [rx_blank, rx_u1]"
  "colls clinic_db ''order'' = [order_blank, order_u1]"
  by (simp_all add: clinic_db_def)

lemma clinic_has_ids:
  "has_ids [stored_medicine]" "has_ids [dr_mehta]" "has_ids [consult_u1]"
  "has_ids [rx_blank, rx_u1]" "has_ids [order_blank, order_u1]"
  by (simp_all add: has_ids_def stored_medicine_def dr_mehta_def consult_u1_def rx_blank_def
        rx_u1_def order_blank_def order_u1_def)

lemma clinic_public:
  "to_public (Some stored_medicine) = Inr (Some public_medicine)"
  "to_public (Some dr_mehta) =
     Inr (Some [(''name'', VStr ''Dr. A. Mehta''), (''specialty'', VStr ''Cardiologist''),
                (''id'', VStr ''0000000000000000000000a1'')])"
  "to_public (Some consult_u1) =
     Inr (Some [(''user_id'', VStr ''u1''), (''doctor_id'', VStr ''0000000000000000000000a1''),
                (''id'', VStr ''0000000000000000000000c1'')])"
  "to_public (Some rx_blank) =
     Inr (Some [(''user_id'', VStr ''''), (''status'', VStr ''pending''),
                (''id'', VStr ''000000000000000000000001'')])"
  "to_public (Some rx_u1) =
     Inr (Some [(''user_id'', VStr ''u1''), (''status'', VStr ''pending''),
                (''id'', VStr ''000000000000000000000002'')])"
  "to_public (Some order_blank) =
     Inr (Some [(''user_id'', VStr ''''), (''address'', VStr ''1 Main St''),
                (''id'', VStr ''0000000000000000000000e1'')])"
  "to_public (Some order_u1) =
     Inr (Some [(''user_id'', VStr ''u1''), (''address'', VStr ''2 Main St''),
                (''id'', VStr ''0000000000000000000000e2'')])"
  by (simp_all add: to_public_def stored_medicine_def public_medicine_def dr_mehta_def
        consult_u1_def rx_blank_def rx_u1_def order_blank_def order_u1_def)

lemma page_of_single: "page_of 0 50 [x] = [x]"
  by (simp add: page_of_def)

lemma run_list_value:
  assumes "\<not> truth_raises d" and "colls d (coll_of call) = xs"
    and "filt_valid (regex_other d) (filt_of call)" and "0 \<le> skip"
    and "filter (doc_matches (regex_other d) (filt_of call)) xs = ms"
    and "to_public_all (page_of skip limit ms) = Inr ys"
  shows "run_list (Some d) call limit skip =
           (Inr \<lparr>total = length ms, items = ys\<rparr>, Some (d\<lparr>calls := Suc (Suc (calls d))\<rparr>))"
  using assms unfolding run_list_true [OF assms(1)] list_page_eq by simp

theorem open_filter_witness:
  "list_medicines (Some clinic_db) (Some []) None 50 0 =
     (Inr \<lparr>total = 1, items = [Some public_medicine]\<rparr>, Some (clinic_db\<lparr>calls := 2\<rparr>)) \<and>
   list_doctors (Some clinic_db) (Some []) None 50 0 =
     (Inr \<lparr>total = 1,
           items = [Some [(''name'', VStr ''Dr. A. Mehta''), (''specialty'', VStr ''Cardiologist''),
                          (''id'', VStr ''0000000000000000000000a1'')]]\<rparr>,
      Some (clinic_db\<lparr>calls := 2\<rparr>)) \<and>
   list_consultations (Some clinic_db) (Some []) None 50 0 =
     (Inr \<lparr>total = 1,
           items = [Some [(''user_id'', VStr ''u1''),
                          (''doctor_id'', VStr ''0000000000000000000000a1''),
                          (''id'', VStr ''0000000000000000000000c1'')]]\<rparr>,
      Some (clinic_db\<lparr>calls := 2\<rparr>)) \<and>
   length (colls clinic_db ''medicine'') = 1 \<and> length (colls clinic_db ''doctor'') = 1 \<and>
   length (colls clinic_db ''consultation'') = 1"
proof -
  have a: "Some [] = None \<or> Some [] = Some ([] :: string)" "None = None \<or> None = Some ([] :: string)"
    by simp_all
  note o = open_filter [OF a, where field = "''category''" and d = clinic_db and limit = 50
      and skip = 0]
  have pre: "\<not> truth_raises clinic_db \<and> (0::int) \<le> 0 \<and> has_ids (colls clinic_db c)"
    if "c = ''medicine'' \<or> c = ''doctor'' \<or> c = ''consultation''" for c
    using that by (auto simp: clinic_facts clinic_has_ids)
  have two: "Suc (Suc (calls clinic_db)) = 2" by (simp add: clinic_facts)
  from o pre [of "''medicine''"] obtain ys1 where
    m: "list_medicines (Some clinic_db) (Some []) None 50 0 =
          (Inr \<lparr>total = length (colls clinic_db ''medicine''), items = ys1\<rparr>,
           Some (clinic_db\<lparr>calls := Suc (Suc (calls clinic_db))\<rparr>))"
    and m': "to_public_all (page_of 0 50 (colls clinic_db ''medicine'')) = Inr ys1"
    by blast
  from o pre [of "''doctor''"] obtain ys2 where
    dr: "list_doctors (Some clinic_db) (Some []) None 50 0 =
          (Inr \<lparr>total = length (colls clinic_db ''doctor''), items = ys2\<rparr>,
           Some (clinic_db\<lparr>calls := Suc (Suc (calls clinic_db))\<rparr>))"
    and dr': "to_public_all (page_of 0 50 (colls clinic_db ''doctor'')) = Inr ys2"
    by blast
  from o pre [of "''consultation''"] obtain ys3 where
    c: "list_consultations (Some clinic_db) (Some []) None 50 0 =
          (Inr \<lparr>total = length (colls clinic_db ''consultation''), items = ys3\<rparr>,
           Some (clinic_db\<lparr>calls := Suc (Suc (calls clinic_db))\<rparr>))"
    and c': "to_public_all (page_of 0 50 (colls clinic_db ''consultation'')) = Inr ys3"
    by blast
  from m' have "ys1 = [Some public_medicine]"
    by (simp add: clinic_facts page_of_single clinic_public)
  moreover from dr' have "ys2 = [Some [(''name'', VStr ''Dr. A. Mehta''),
      (''specialty'', VStr ''Cardiologist''), (''id'', VStr ''0000000000000000000000a1'')]]"
    by (simp add: clinic_facts page_of_single clinic_public)
  moreover from c' have "ys3 = [Some [(''user_id'', VStr ''u1''),
      (''doctor_id'', VStr ''0000000000000000000000a1''),
      (''id'', VStr ''0000000000000000000000c1'')]]"
    by (simp add: clinic_facts page_of_single clinic_public)
  ultimately show ?thesis
    using m dr c unfolding two by (simp add: clinic_facts)
qed

lemma rx_matches_u1:
  "filter (doc_matches rx [(''user_id'', Eq (VStr ''u1''))]) [rx_blank, rx_u1] = [rx_u1]"
  by (simp add: doc_matches_def rx_blank_def rx_u1_def)

text \<open>
  Not every list call has an open filter: the prescriptions of a user are one of the two
  stored prescriptions when the handle tests true, and the call raises when the truth
  test of the handle does.
\<close>

theorem required_user_id_excludes:
  "run_list (Some clinic_db) (Prescriptions ''u1'') 50 0 =
     (Inr \<lparr>total = 1,
           items = [Some [(''user_id'', VStr ''u1''), (''status'', VStr ''pending''),
                          (''id'', VStr ''000000000000000000000002'')]]\<rparr>,
      Some (clinic_db\<lparr>calls := 2\<rparr>)) \<and>
   length (colls clinic_db ''prescription'') = 2 \<and>
   run_list (Some clinic_db_v4) (Prescriptions ''u1'') 50 0 =
     (Inl NotImplementedError, Some clinic_db_v4)"
proof -
  have v4: "truth_raises clinic_db_v4" by (simp add: clinic_db_v4_def)
  have two: "Suc (Suc (calls clinic_db)) = 2" by (simp add: clinic_facts)
  have "run_list (Some clinic_db) (Prescriptions ''u1'') 50 0 =
     (Inr \<lparr>total = length [rx_u1],
           items = [Some [(''user_id'', VStr ''u1''), (''status'', VStr ''pending''),
                          (''id'', VStr ''000000000000000000000002'')]]\<rparr>,
      Some (clinic_db\<lparr>calls := Suc (Suc (calls clinic_db))\<rparr>))"
  proof (rule run_list_value)
    show "\<not> truth_raises clinic_db" by (rule clinic_facts)
    show "colls clinic_db (coll_of (Prescriptions ''u1'')) = [rx_blank, rx_u1]"
      by (simp add: clinic_facts)
    show "filt_valid (regex_other clinic_db) (filt_of (Prescriptions ''u1''))"
      by (simp add: filt_valid_def)
    show "(0::int) \<le> 0" by simp
    show "filter (doc_matches (regex_other clinic_db) (filt_of (Prescriptions ''u1'')))
            [rx_blank, rx_u1] = [rx_u1]"
      using rx_matches_u1 by simp
    show "to_public_all (page_of 0 50 [rx_u1]) =
            Inr [Some [(''user_id'', VStr ''u1''), (''status'', VStr ''pending''),
                          (''id'', VStr ''000000000000000000000002'')]]"
      by (simp add: page_of_single clinic_public)
  qed
  then have "run_list (Some clinic_db) (Prescriptions ''u1'') 50 0 =
     (Inr \<lparr>total = 1,
           items = [Some [(''user_id'', VStr ''u1''), (''status'', VStr ''pending''),
                          (''id'', VStr ''000000000000000000000002'')]]\<rparr>,
      Some (clinic_db\<lparr>calls := 2\<rparr>))"
    unfolding two by simp
  moreover have "length (colls clinic_db ''prescription'') = 2" by (simp add: clinic_facts)
  ultimately show ?thesis
    using run_list_raises [OF v4, of "Prescriptions ''u1''" 50 0] by blast
qed

section \<open>The seed operation\<close>

lemma count_documents_all:
  "count_documents d c [] = (Inr (length (colls d c)), d\<lparr>calls := Suc (calls d)\<rparr>)"
  by (simp add: count_documents_def filt_valid_Nil filter_doc_matches_Nil)

lemma seed_basic_raises:
  "truth_raises d \<Longrightarrow> seed_basic (Some d) = (Inl NotImplementedError, Some d)"
  by (simp add: seed_basic_def truth_test_simps)

lemma seed_basic_eq:
  "\<not> truth_raises d \<Longrightarrow>
   seed_basic (Some d) =
     (let d1 = d\<lparr>calls := Suc (calls d)\<rparr>;
          d2 = (if colls d ''medicine'' = [] then insert_many d1 ''medicine'' seed_medicines else d1);
          d3 = d2\<lparr>calls := Suc (calls d2)\<rparr>;
          d4 = (if colls d ''doctor'' = [] then insert_many d3 ''doctor'' seed_doctors else d3)
      in (Inr seeded, Some d4))"
  by (simp add: seed_basic_def truth_test_simps count_documents_all Let_def insert_many_def)

lemma seed_colls:
  assumes "\<not> truth_raises d"
  shows "\<exists>d'. seed_basic (Some d) = (Inr seeded, Some d') \<and> \<not> truth_raises d' \<and>
     colls d' ''medicine'' =
       (if colls d ''medicine'' = [] then with_ids (next_oid d) seed_medicines
        else colls d ''medicine'') \<and>
     colls d' ''doctor'' =
       (if colls d ''doctor'' = []
        then with_ids (if colls d ''medicine'' = [] then next_oid d + 2 else next_oid d) seed_doctors
        else colls d ''doctor'') \<and>
     (\<forall>c. c \<noteq> ''medicine'' \<longrightarrow> c \<noteq> ''doctor'' \<longrightarrow> colls d' c = colls d c)"
  using assms by (auto simp: seed_basic_eq Let_def insert_many_def seed_medicines_def)

text \<open>
  C9. On a store whose medicine collection is not empty, the seed operation leaves the
  medicine collection, and so its count, as it was. On any configured store, a second
  seed right after a first one leaves every collection as the first one left it. Both
  seeds succeed when the handle tests true.
\<close>

theorem seed_idempotent:
  "(colls d ''medicine'' \<noteq> [] \<longrightarrow>
      (\<exists>r d'. seed_basic (Some d) = (r, Some d') \<and>
              (\<not> truth_raises d \<longrightarrow> r = Inr seeded) \<and>
              colls d' ''medicine'' = colls d ''medicine'' \<and>
              length (colls d' ''medicine'') = length (colls d ''medicine''))) \<and>
   (\<exists>r1 r2 d1 d2. seed_basic (Some d) = (r1, Some d1) \<and>
            seed_basic (Some d1) = (r2, Some d2) \<and>
            (\<not> truth_raises d \<longrightarrow> r1 = Inr seeded \<and> r2 = Inr seeded) \<and>
            colls d2 = colls d1)"
proof (cases "truth_raises d")
  case True
  then show ?thesis by (auto simp: seed_basic_raises)
next
  case False
  from seed_colls [OF False] obtain d1 where s1: "seed_basic (Some d) = (Inr seeded, Some d1)"
    and t1: "\<not> truth_raises d1"
    and m1: "colls d1 ''medicine'' =
       (if colls d ''medicine'' = [] then with_ids (next_oid d) seed_medicines
        else colls d ''medicine'')"
    and c1: "colls d1 ''doctor'' =
       (if colls d ''doctor'' = []
        then with_ids (if colls d ''medicine'' = [] then next_oid d + 2 else next_oid d) seed_doctors
        else colls d ''doctor'')"
    by blast
  have ne: "colls d1 ''medicine'' \<noteq> []" "colls d1 ''doctor'' \<noteq> []"
    using m1 c1 by (auto simp: seed_medicines_def seed_doctors_def)
  from seed_colls [OF t1] ne obtain d2 where s2: "seed_basic (Some d1) = (Inr seeded, Some d2)"
    and m2: "colls d2 ''medicine'' = colls d1 ''medicine''"
    and c2: "colls d2 ''doctor'' = colls d1 ''doctor''"
    and o2: "\<forall>c. c \<noteq> ''medicine'' \<longrightarrow> c \<noteq> ''doctor'' \<longrightarrow> colls d2 c = colls d1 c"
    by auto
  have "colls d2 = colls d1"
  proof
    fix c show "colls d2 c = colls d1 c"
      using m2 c2 o2 by (cases "c = ''medicine''"; cases "c = ''doctor''") auto
  qed
  with s1 s2 m1 show ?thesis by auto
qed

theorem seed_idempotent_witness:
  "colls demo_db ''medicine'' \<noteq> [] \<and>
   (\<exists>d'. seed_basic (Some demo_db) = (Inr seeded, Some d') \<and>
         colls d' ''medicine'' = [stored_medicine]) \<and>
   seed_basic (Some demo_db_v4) = (Inl NotImplementedError, Some demo_db_v4)"
proof -
  have ne: "colls demo_db ''medicine'' \<noteq> []" "\<not> truth_raises demo_db"
    by (simp_all add: demo_db_def)
  have v4: "truth_raises demo_db_v4" by (simp add: demo_db_v4_def demo_db_def)
  from seed_idempotent [of demo_db] ne seed_basic_raises [OF v4] show ?thesis
    by (auto simp: demo_db_def)
qed

section \<open>The required user identifier\<close>

lemma to_public_all_from:
  "to_public_all xs = Inr ys \<Longrightarrow> \<forall>y \<in> set ys. \<exists>x \<in> set xs. to_public (Some x) = Inr y"
  by (induction xs arbitrary: ys) (auto split: sum.splits)

lemma doc_matches_user_id:
  "doc_matches rx [(''user_id'', Eq (VStr u))] = (\<lambda>x. map_of x ''user_id'' = Some (VStr u))"
  by (rule ext) (simp add: doc_matches_def)

lemma run_list_user_id:
  assumes "filt_of call = [(''user_id'', Eq (VStr u))]"
  shows "(run_list (Some d) call limit skip = (Inr pg, db') \<longrightarrow>
            total pg =
              length (filter (\<lambda>x. map_of x ''user_id'' = Some (VStr u)) (colls d (coll_of call))) \<and>
            (\<forall>y \<in> set (items pg). \<exists>x \<in> set (colls d (coll_of call)).
               map_of x ''user_id'' = Some (VStr u) \<and> to_public (Some x) = Inr y)) \<and>
         (\<not> truth_raises d \<and> 0 \<le> skip \<and> has_ids (colls d (coll_of call)) \<longrightarrow>
            (\<exists>ys. run_list (Some d) call limit skip =
                     (Inr \<lparr>total = length (filter (\<lambda>x. map_of x ''user_id'' = Some (VStr u))
                                              (colls d (coll_of call))),
                           items = ys\<rparr>,
                      Some (d\<lparr>calls := Suc (Suc (calls d))\<rparr>)) \<and>
                   to_public_all
                     (page_of skip limit
                        (filter (\<lambda>x. map_of x ''user_id'' = Some (VStr u)) (colls d (coll_of call))))
                     = Inr ys))"
proof (rule conjI; rule impI)
  let ?ms = "filter (\<lambda>x. map_of x ''user_id'' = Some (VStr u)) (colls d (coll_of call))"
  assume run: "run_list (Some d) call limit skip = (Inr pg, db')"
  then have t: "\<not> truth_raises d" by (auto simp: run_list_raises)
  with run obtain d' where
    "list_page d (coll_of call) [(''user_id'', Eq (VStr u))] limit skip = (Inr pg, d')"
    by (auto simp: run_list_true assms split: prod.splits)
  from list_page_Inr [OF this] have tot: "total pg = length ?ms"
    and i: "to_public_all (page_of skip limit ?ms) = Inr (items pg)"
    by (simp_all add: doc_matches_user_id)
  have "set (page_of skip limit ?ms) \<subseteq> set ?ms" by (rule page_of_subset)
  with to_public_all_from [OF i]
  have "\<forall>y \<in> set (items pg). \<exists>x \<in> set ?ms. to_public (Some x) = Inr y" by blast
  with tot show "total pg = length ?ms \<and>
            (\<forall>y \<in> set (items pg). \<exists>x \<in> set (colls d (coll_of call)).
               map_of x ''user_id'' = Some (VStr u) \<and> to_public (Some x) = Inr y)"
    by auto
next
  assume a: "\<not> truth_raises d \<and> 0 \<le> skip \<and> has_ids (colls d (coll_of call))"
  then have p: "0 \<le> skip" "has_ids (colls d (coll_of call))" by simp_all
  have v: "filt_valid (regex_other d) [(''user_id'', Eq (VStr u))]"
    by (simp add: filt_valid_def)
  from list_page_returns [OF v p, of limit] a
  show "\<exists>ys. run_list (Some d) call limit skip =
                     (Inr \<lparr>total = length (filter (\<lambda>x. map_of x ''user_id'' = Some (VStr u))
                                              (colls d (coll_of call))),
                           items = ys\<rparr>,
                      Some (d\<lparr>calls := Suc (Suc (calls d))\<rparr>)) \<and>
                   to_public_all
                     (page_of skip limit
                        (filter (\<lambda>x. map_of x ''user_id'' = Some (VStr u)) (colls d (coll_of call))))
                     = Inr ys"
    by (auto simp: run_list_true assms doc_matches_user_id)
qed

text \<open>
  C10. \<open>list_prescriptions\<close> and \<open>list_orders\<close> constrain \<open>user_id\<close> by equality for
  every value of the parameter, the empty string included. Whenever such a call returns
  a page, the total counts the documents whose \<open>user_id\<close> is that string and every item
  is the normal form of such a document; and on a handle that tests true, with a \<open>skip\<close>
  that is not negative and stored documents that carry \<open>_id\<close>, the call does return
  the page of those documents, after two round trips. An empty optional parameter of the
  other list endpoints builds the same filter as an absent one.
\<close>

theorem user_id_always_applied:
  "(list_prescriptions (Some d) u limit skip = (Inr pg, db') \<longrightarrow>
      total pg =
        length (filter (\<lambda>x. map_of x ''user_id'' = Some (VStr u)) (colls d ''prescription'')) \<and>
      (\<forall>y \<in> set (items pg). \<exists>x \<in> set (colls d ''prescription'').
         map_of x ''user_id'' = Some (VStr u) \<and> to_public (Some x) = Inr y)) \<and>
   (list_orders (Some d) u limit skip = (Inr pg, db') \<longrightarrow>
      total pg =
        length (filter (\<lambda>x. map_of x ''user_id'' = Some (VStr u)) (colls d ''order'')) \<and>
      (\<forall>y \<in> set (items pg). \<exists>x \<in> set (colls d ''order'').
         map_of x ''user_id'' = Some (VStr u) \<and> to_public (Some x) = Inr y)) \<and>
   (\<not> truth_raises d \<and> 0 \<le> skip \<and> has_ids (colls d ''prescription'') \<longrightarrow>
      (\<exists>ys. list_prescriptions (Some d) u limit skip =
               (Inr \<lparr>total = length (filter (\<lambda>x. map_of x ''user_id'' = Some (VStr u))
                                        (colls d ''prescription'')),
                     items = ys\<rparr>,
                Some (d\<lparr>calls := Suc (Suc (calls d))\<rparr>)) \<and>
             to_public_all
               (page_of skip limit
                  (filter (\<lambda>x. map_of x ''user_id'' = Some (VStr u)) (colls d ''prescription'')))
               = Inr ys)) \<and>
   (\<not> truth_raises d \<and> 0 \<le> skip \<and> has_ids (colls d ''order'') \<longrightarrow>
      (\<exists>ys. list_orders (Some d) u limit skip =
               (Inr \<lparr>total = length (filter (\<lambda>x. map_of x ''user_id'' = Some (VStr u))
                                        (colls d ''order'')),
                     items = ys\<rparr>,
                Some (d\<lparr>calls := Suc (Suc (calls d))\<rparr>)) \<and>
             to_public_all
               (page_of skip limit
                  (filter (\<lambda>x. map_of x ''user_id'' = Some (VStr u)) (colls d ''order'')))
               = Inr ys)) \<and>
   consultation_filt (Some []) b = consultation_filt None b \<and>
   text_filt field (Some []) b = text_filt field None b \<and>
   text_filt field b (Some []) = text_filt field b None"
proof -
  have p: "filt_of (Prescriptions u) = [(''user_id'', Eq (VStr u))]" by simp
  have o: "filt_of (Orders u) = [(''user_id'', Eq (VStr u))]" by simp
  from run_list_user_id [OF p, of d limit skip pg db'] run_list_user_id [OF o, of d limit skip pg db']
  show ?thesis by (simp add: consultation_filt_def text_filt_def)
qed


lemma blank_user_matches:
  "filter (\<lambda>x. map_of x ''user_id'' = Some (VStr '''')) [rx_blank, rx_u1] = [rx_blank]"
  "filter (\<lambda>x. map_of x ''user_id'' = Some (VStr '''')) [order_blank, order_u1] = [order_blank]"
  by (simp_all add: rx_blank_def rx_u1_def order_blank_def order_u1_def)

theorem user_id_always_applied_witness:
  "list_prescriptions (Some clinic_db) '''' 50 0 =
     (Inr \<lparr>total = 1,
           items = [Some [(''user_id'', VStr ''''), (''status'', VStr ''pending''),
                          (''id'', VStr ''000000000000000000000001'')]]\<rparr>,
      Some (clinic_db\<lparr>calls := 2\<rparr>)) \<and>
   list_orders (Some clinic_db) '''' 50 0 =
     (Inr \<lparr>total = 1,
           items = [Some [(''user_id'', VStr ''''), (''address'', VStr ''1 Main St''),
                          (''id'', VStr ''0000000000000000000000e1'')]]\<rparr>,
      Some (clinic_db\<lparr>calls := 2\<rparr>)) \<and>
   length (colls clinic_db ''prescription'') = 2 \<and> length (colls clinic_db ''order'') = 2"
proof -
  note o = user_id_always_applied [where d = clinic_db and u = "''''" and limit = 50 and skip = 0]
  have pre: "\<not> truth_raises clinic_db \<and> (0::int) \<le> 0 \<and> has_ids (colls clinic_db c)"
    if "c = ''prescription'' \<or> c = ''order''" for c
    using that by (auto simp: clinic_facts clinic_has_ids)
  have two: "Suc (Suc (calls clinic_db)) = 2" by (simp add: clinic_facts)
  from o pre [of "''prescription''"] obtain ys1 where
    p: "list_prescriptions (Some clinic_db) '''' 50 0 =
          (Inr \<lparr>total = length (filter (\<lambda>x. map_of x ''user_id'' = Some (VStr ''''))
                                   (colls clinic_db ''prescription'')), items = ys1\<rparr>,
           Some (clinic_db\<lparr>calls := Suc (Suc (calls clinic_db))\<rparr>))"
    and p': "to_public_all (page_of 0 50
               (filter (\<lambda>x. map_of x ''user_id'' = Some (VStr ''''))
                  (colls clinic_db ''prescription''))) = Inr ys1"
    by blast
  from o pre [of "''order''"] obtain ys2 where
    r: "list_orders (Some clinic_db) '''' 50 0 =
          (Inr \<lparr>total = length (filter (\<lambda>x. map_of x ''user_id'' = Some (VStr ''''))
                                   (colls clinic_db ''order'')), items = ys2\<rparr>,
           Some (clinic_db\<lparr>calls := Suc (Suc (calls clinic_db))\<rparr>))"
    and r': "to_public_all (page_of 0 50
               (filter (\<lambda>x. map_of x ''user_id'' = Some (VStr ''''))
                  (colls clinic_db ''order''))) = Inr ys2"
    by blast
  from p' have "ys1 = [Some [(''user_id'', VStr ''''), (''status'', VStr ''pending''),
                          (''id'', VStr ''000000000000000000000001'')]]"
    unfolding clinic_facts blank_user_matches by (simp add: page_of_single clinic_public)
  moreover from r' have "ys2 = [Some [(''user_id'', VStr ''''), (''address'', VStr ''1 Main St''),
                          (''id'', VStr ''0000000000000000000000e1'')]]"
    unfolding clinic_facts blank_user_matches by (simp add: page_of_single clinic_public)
  ultimately show ?thesis
    using p r unfolding two clinic_facts blank_user_matches by simp
qed

section \<open>Free-text search\<close>









section \<open>Create and read back\<close>





lemma to_public_all_append:
  "to_public_all xs = Inr ys \<Longrightarrow> to_public (Some x) = Inr y \<Longrightarrow>
   to_public_all (xs @ [x]) = Inr (ys @ [y])"
  by (induction xs arbitrary: ys) (auto split: sum.splits)

















end
